theory Spec2Isabelle
  imports Main
begin

section \<open>The video-sharing server: relational store and uploads directory\<close>

text \<open>
  The two tables created at start-up (\<^verbatim>\<open>CREATE TABLE IF NOT EXISTS users\<close>,
  \<^verbatim>\<open>CREATE TABLE IF NOT EXISTS videos\<close>). A row is a record with the table's
  columns; the column \<^verbatim>\<open>id\<close> is called \<open>u_id\<close> and \<open>v_id\<close> because \<open>id\<close>
  is the identity function of HOL. \<^verbatim>\<open>video_type\<close> is a TEXT column: the server
  stores whatever string the upload request carried, \<^verbatim>\<open>'file'\<close> by default.
\<close>

record user =
  u_id :: int
  u_name :: string
  u_email :: string
  u_password :: string
  u_created_at :: string

record video =
  v_id :: int
  v_title :: string
  v_description :: string
  video_url :: string
  video_type :: string
  user_id :: int
  v_created_at :: string

text \<open>
  The state the handlers act on: the tables behind the single connection \<^verbatim>\<open>db\<close>,
  the snapshot taken by an open transaction (\<open>None\<close> when the connection is in
  autocommit mode), and the set of paths for which \<^verbatim>\<open>fs.existsSync\<close> answers true.
\<close>

record state =
  users :: "user list"
  videos :: "video list"
  txn :: "(user list \<times> video list) option"
  files :: "string set"

text \<open>
  What a handler cannot decide by itself: the result of \<^verbatim>\<open>path.join(__dirname, url)\<close>,
  whether \<^verbatim>\<open>fs.unlinkSync\<close> throws on a path, and whether a statement hands its
  callback an \<^verbatim>\<open>err\<close>. \<open>select_err\<close> is the error of the \<^verbatim>\<open>SELECT\<close>
  (\<^verbatim>\<open>db.all\<close> in the account handler, \<^verbatim>\<open>db.get\<close> in the video handler),
  \<open>delete_videos_err\<close> that of the \<^verbatim>\<open>DELETE FROM videos\<close> statement.
\<close>

record env =
  path_join :: "string \<Rightarrow> string"
  unlink_throws :: "string \<Rightarrow> bool"
  select_err :: bool
  delete_videos_err :: bool
  delete_user_err :: bool
  commit_err :: bool

text \<open>The calls a handler makes on the database and on the file system, in order.\<close>

datatype event =
    Begin
  | Commit
  | Rollback
  | SelectVideos int
  | DeleteVideos int
  | DeleteUser int
  | GetVideo int
  | DeleteVideoRow int
  | ExistsSync string
  | UnlinkSync string

text \<open>
  A JSON value, as \<^verbatim>\<open>JSON.parse\<close> and \<^verbatim>\<open>express.json()\<close> produce it. An object
  is the list of its properties in insertion order. No handler looks into a number.
\<close>

datatype json =
    JNull
  | JBool bool
  | JNum int
  | JStr string
  | JArr "json list"
  | JObj "(string \<times> json) list"

text \<open>
  What \<^verbatim>\<open>res.status(c).json(b)\<close> sends; \<^verbatim>\<open>res.json(b)\<close> alone sends status 200.
  \<open>ErrorBody m\<close> is \<^verbatim>\<open>{ error: m }\<close>, \<open>MessageBody m\<close> is \<^verbatim>\<open>{ message: m }\<close>,
  \<open>AccountDeleted m v f\<close> is
  \<^verbatim>\<open>{ message: m, details: { videosDeleted: v, filesDeleted: f } }\<close>.
\<close>

datatype body =
    ErrorBody string
  | MessageBody string
  | AccountDeleted string nat nat
  | JsonBody json

datatype response = Response nat body

fun status :: "response \<Rightarrow> nat" where
  "status (Response c b) = c"

subsection \<open>Statements on the connection\<close>

text \<open>
  \<^verbatim>\<open>db.run('BEGIN TRANSACTION')\<close> has no callback: inside an open transaction the
  statement fails and the failure is dropped, the open transaction stays as it is.
\<close>

definition begin_transaction :: "state \<Rightarrow> state" where
  "begin_transaction s =
     (case txn s of
        None \<Rightarrow> s\<lparr>txn := Some (users s, videos s)\<rparr>
      | Some saved \<Rightarrow> s)"

text \<open>\<^verbatim>\<open>db.run('ROLLBACK')\<close>: the tables go back to the snapshot; files do not.\<close>

definition rollback :: "state \<Rightarrow> state" where
  "rollback s =
     (case txn s of
        None \<Rightarrow> s
      | Some (us, vs) \<Rightarrow> s\<lparr>users := us, videos := vs, txn := None\<rparr>)"

definition commit :: "state \<Rightarrow> state" where
  "commit s = s\<lparr>txn := None\<rparr>"

text \<open>\<^verbatim>\<open>DELETE FROM videos WHERE user_id = ?\<close>, with \<^verbatim>\<open>this.changes\<close>.\<close>

definition delete_videos_of :: "int \<Rightarrow> state \<Rightarrow> nat \<times> state" where
  "delete_videos_of userId s =
     (length (filter (\<lambda>v. user_id v = userId) (videos s)),
      s\<lparr>videos := filter (\<lambda>v. user_id v \<noteq> userId) (videos s)\<rparr>)"

text \<open>
  \<^verbatim>\<open>DELETE FROM users WHERE id = ?\<close>, with \<^verbatim>\<open>this.changes\<close>. The videos table
  declares \<^verbatim>\<open>FOREIGN KEY(user_id) REFERENCES users(id) ON DELETE CASCADE\<close> and the
  server switches \<^verbatim>\<open>PRAGMA foreign_keys = ON\<close>, so a deleted user row takes the
  videos that reference it along; the count is that of the user rows only.
\<close>

definition delete_user :: "int \<Rightarrow> state \<Rightarrow> nat \<times> state" where
  "delete_user userId s =
     (let changes = length (filter (\<lambda>u. u_id u = userId) (users s))
      in (changes,
          if changes = 0 then s
          else s\<lparr>users := filter (\<lambda>u. u_id u \<noteq> userId) (users s),
                 videos := filter (\<lambda>v. user_id v \<noteq> userId) (videos s)\<rparr>))"

text \<open>\<^verbatim>\<open>DELETE FROM videos WHERE id = ?\<close>, with \<^verbatim>\<open>this.changes\<close>.\<close>

definition delete_video_row :: "int \<Rightarrow> state \<Rightarrow> nat \<times> state" where
  "delete_video_row videoId s =
     (length (filter (\<lambda>v. v_id v = videoId) (videos s)),
      s\<lparr>videos := filter (\<lambda>v. v_id v \<noteq> videoId) (videos s)\<rparr>)"

subsection \<open>Removing the uploaded file of a video\<close>

text \<open>
  Both handlers carry the same block:
  \<^verbatim>\<open>
  if (video.video_type === 'file' && video.video_url) {
    const filePath = path.join(__dirname, video.video_url);
    if (fs.existsSync(filePath)) {
      try { fs.unlinkSync(filePath); ... } catch (fileError) { console.error(...) }
    }
  }
  \<close>
  The result is the new set of files, whether the statement after \<^verbatim>\<open>unlinkSync\<close>
  was reached (where the account handler counts), and the file-system calls made.
\<close>

definition remove_file :: "env \<Rightarrow> video \<Rightarrow> string set \<Rightarrow> string set \<times> bool \<times> event list" where
  "remove_file e video fs =
     (if video_type video = ''file'' \<and> video_url video \<noteq> [] then
        (let filePath = path_join e (video_url video) in
         if filePath \<in> fs then
           (if unlink_throws e filePath
            then (fs, False, [ExistsSync filePath, UnlinkSync filePath])
            else (fs - {filePath}, True, [ExistsSync filePath, UnlinkSync filePath]))
         else (fs, False, [ExistsSync filePath]))
      else (fs, False, []))"

text \<open>
  One round of \<^verbatim>\<open>videos.forEach(video => ...)\<close> in the account handler, on the
  files, the counter \<^verbatim>\<open>filesDeleted\<close> and the calls made so far.
\<close>

definition forEach_step :: "env \<Rightarrow> video \<Rightarrow> string set \<times> nat \<times> event list \<Rightarrow> string set \<times> nat \<times> event list" where
  "forEach_step e video acc =
     (case acc of (fs, filesDeleted, calls) \<Rightarrow>
        (case remove_file e video fs of (fs', deleted, evs) \<Rightarrow>
           (fs', if deleted then filesDeleted + 1 else filesDeleted, calls @ evs)))"

definition remove_files :: "env \<Rightarrow> video list \<Rightarrow> string set \<Rightarrow> string set \<times> nat \<times> event list" where
  "remove_files e vs fs = fold (forEach_step e) vs (fs, 0, [])"

subsection \<open>\<^verbatim>\<open>app.delete('/api/account')\<close>\<close>

text \<open>
  The handler's nest of callbacks, read top to bottom. The result is the response,
  the state the handler leaves and the calls it made.
\<close>

definition deleteAccount :: "env \<Rightarrow> int \<Rightarrow> state \<Rightarrow> response \<times> state \<times> event list" where
  "deleteAccount e userId s0 =
     (let s1 = begin_transaction s0 in
      if select_err e then
        (Response 500 (ErrorBody ''Failed to delete account''), rollback s1,
         [Begin, SelectVideos userId, Rollback])
      else
        (let vids = filter (\<lambda>v. user_id v = userId) (videos s1) in
         case remove_files e vids (files s1) of (fs, filesDeleted, fcalls) \<Rightarrow>
           (let s2 = s1\<lparr>files := fs\<rparr>;
                calls2 = [Begin, SelectVideos userId] @ fcalls @ [DeleteVideos userId] in
            if delete_videos_err e then
              (Response 500 (ErrorBody ''Failed to delete account data''), rollback s2,
               calls2 @ [Rollback])
            else
              (let s3 = snd (delete_videos_of userId s2);
                   calls3 = calls2 @ [DeleteUser userId] in
               if delete_user_err e then
                 (Response 500 (ErrorBody ''Failed to delete account''), rollback s3,
                  calls3 @ [Rollback])
               else
                 (case delete_user userId s3 of (changes, s4) \<Rightarrow>
                    if changes = 0 then
                      (Response 404 (ErrorBody ''User not found''), rollback s4,
                       calls3 @ [Rollback])
                    else if commit_err e then
                      (Response 500 (ErrorBody ''Failed to complete account deletion''),
                       rollback s4, calls3 @ [Commit, Rollback])
                    else
                      (Response 200
                         (AccountDeleted ''Account and all associated data deleted successfully''
                            (length vids) filesDeleted),
                       commit s4, calls3 @ [Commit]))))))"

subsection \<open>\<^verbatim>\<open>app.delete('/api/videos/:id')\<close>\<close>

text \<open>
  \<^verbatim>\<open>db.get\<close> hands over the first row of the result, \<^verbatim>\<open>undefined\<close> when there is
  none. The route parameter is compared with the INTEGER PRIMARY KEY column, so the
  key is an integer here.
\<close>

definition deleteVideo :: "env \<Rightarrow> int \<Rightarrow> int \<Rightarrow> state \<Rightarrow> response \<times> state \<times> event list" where
  "deleteVideo e userId videoId s =
     (if select_err e then
        (Response 500 (ErrorBody ''Failed to delete video''), s, [GetVideo videoId])
      else
        (case find (\<lambda>v. v_id v = videoId) (videos s) of
           None \<Rightarrow> (Response 404 (ErrorBody ''Video not found''), s, [GetVideo videoId])
         | Some video \<Rightarrow>
             if user_id video \<noteq> userId then
               (Response 403 (ErrorBody ''Access denied''), s, [GetVideo videoId])
             else
               (case remove_file e video (files s) of (fs, deleted, fcalls) \<Rightarrow>
                  (let s1 = s\<lparr>files := fs\<rparr>;
                       calls = [GetVideo videoId] @ fcalls @ [DeleteVideoRow videoId] in
                   if delete_videos_err e then
                     (Response 500 (ErrorBody ''Failed to delete video from database''), s1, calls)
                   else
                     (case delete_video_row videoId s1 of (changes, s2) \<Rightarrow>
                        if changes = 0 then
                          (Response 404 (ErrorBody ''Video not found''), s2, calls)
                        else
                          (Response 200 (MessageBody ''Video deleted successfully''), s2, calls))))))"

section \<open>The task list kept in \<^verbatim>\<open>data/tasks.json\<close>\<close>

text \<open>
  The file is \<open>None\<close> when \<^verbatim>\<open>fs.readFileSync\<close> throws (no file, no permission)
  and \<open>Some data\<close> with its text otherwise. The built-ins of the JavaScript
  runtime are parameters: \<^verbatim>\<open>JSON.parse\<close> (\<open>None\<close> when it throws a SyntaxError),
  \<^verbatim>\<open>JSON.stringify(tasks, null, 2)\<close>, \<^verbatim>\<open>String.prototype.trim\<close> and the clock
  read by \<^verbatim>\<open>new Date().toISOString()\<close>. \<^verbatim>\<open>fs.writeFileSync\<close> is taken to
  succeed.
\<close>

record runtime =
  json_parse :: "string \<Rightarrow> json option"
  json_stringify :: "json \<Rightarrow> string"
  trim :: "string \<Rightarrow> string"
  now :: string

datatype exn = TypeError

definition readTasks :: "runtime \<Rightarrow> string option \<Rightarrow> json" where
  "readTasks rt file =
     (case file of
        None \<Rightarrow> JArr []
      | Some data \<Rightarrow>
          (case json_parse rt data of
             None \<Rightarrow> JArr []
           | Some tasks \<Rightarrow> tasks))"

definition writeTasks :: "runtime \<Rightarrow> json \<Rightarrow> string option" where
  "writeTasks rt tasks = Some (json_stringify rt tasks)"

text \<open>
  \<^verbatim>\<open>getTasks\<close>: nothing inside its \<^verbatim>\<open>try\<close> throws, since \<^verbatim>\<open>readTasks\<close>
  catches every exception itself and \<^verbatim>\<open>res.json\<close> serialises a parsed value.
\<close>

definition getTasks :: "runtime \<Rightarrow> string option \<Rightarrow> response" where
  "getTasks rt file = Response 200 (JsonBody (readTasks rt file))"

text \<open>
  \<^verbatim>\<open>text.trim()\<close> on a value of the request body: only a string has the method;
  on \<^verbatim>\<open>null\<close> the property access throws, on every other value the call of
  \<^verbatim>\<open>undefined\<close> does.
\<close>

fun text_trim :: "runtime \<Rightarrow> json \<Rightarrow> exn + string" where
  "text_trim rt (JStr t) = Inr (trim rt t)"
| "text_trim rt j = Inl TypeError"

text \<open>
  \<^verbatim>\<open>tasks.findIndex(task => task.id === id)\<close> from position \<open>i\<close> on; \<open>None\<close>
  is the result \<^verbatim>\<open>-1\<close>. \<^verbatim>\<open>task.id\<close> throws on \<^verbatim>\<open>null\<close>, is
  \<^verbatim>\<open>undefined\<close> on a number, a boolean, a string and an array, and is the property
  on an object; \<^verbatim>\<open>===\<close> holds for a string equal to the route parameter only.
\<close>

fun findIndex :: "string \<Rightarrow> json list \<Rightarrow> nat \<Rightarrow> exn + nat option" where
  "findIndex ident [] i = Inr None"
| "findIndex ident (JNull # tasks) i = Inl TypeError"
| "findIndex ident (JObj props # tasks) i =
     (if map_of props ''id'' = Some (JStr ident) then Inr (Some i)
      else findIndex ident tasks (Suc i))"
| "findIndex ident (task # tasks) i = findIndex ident tasks (Suc i)"

text \<open>
  The assignment \<^verbatim>\<open>task.key = value\<close>: an existing property keeps its place, a
  new one goes last.
\<close>

fun set_prop :: "string \<Rightarrow> json \<Rightarrow> (string \<times> json) list \<Rightarrow> (string \<times> json) list" where
  "set_prop k v [] = [(k, v)]"
| "set_prop k v ((k', v') # props) =
     (if k' = k then (k, v) # props else (k', v') # set_prop k v props)"

text \<open>\<^verbatim>\<open>text !== undefined && text.trim() === ''\<close>\<close>

fun text_is_blank :: "runtime \<Rightarrow> json option \<Rightarrow> exn + bool" where
  "text_is_blank rt None = Inr False"
| "text_is_blank rt (Some t) =
     (case text_trim rt t of Inl ex \<Rightarrow> Inl ex | Inr t' \<Rightarrow> Inr (t' = []))"

text \<open>\<^verbatim>\<open>if (text !== undefined) { tasks[taskIndex].text = text.trim(); }\<close>\<close>

fun assign_text :: "runtime \<Rightarrow> json option \<Rightarrow> (string \<times> json) list \<Rightarrow> exn + (string \<times> json) list" where
  "assign_text rt None props = Inr props"
| "assign_text rt (Some t) props =
     (case text_trim rt t of
        Inl ex \<Rightarrow> Inl ex
      | Inr t' \<Rightarrow> Inr (set_prop ''text'' (JStr t') props))"

text \<open>\<^verbatim>\<open>if (completed !== undefined) { tasks[taskIndex].completed = completed; }\<close>\<close>

fun assign_completed :: "json option \<Rightarrow> (string \<times> json) list \<Rightarrow> (string \<times> json) list" where
  "assign_completed None props = props"
| "assign_completed (Some c) props = set_prop ''completed'' c props"

text \<open>
  \<^verbatim>\<open>updateTask\<close>, with \<^verbatim>\<open>req.params.id\<close> and the two properties read from
  \<^verbatim>\<open>req.body\<close> (\<open>None\<close> for \<^verbatim>\<open>undefined\<close>). Every exception ends in the
  handler's \<^verbatim>\<open>catch\<close>. \<^verbatim>\<open>findIndex\<close> is a method of arrays only, and an
  element it selects is an object, having an \<^verbatim>\<open>id\<close> that is a string. The
  result is the response and the file the handler leaves.
\<close>

definition updateTask ::
    "runtime \<Rightarrow> string \<Rightarrow> json option \<Rightarrow> json option \<Rightarrow> string option \<Rightarrow> response \<times> string option" where
  "updateTask rt ident text completed file =
     (let failed = (Response 500 (ErrorBody ''Failed to update task''), file) in
      if text = None \<and> completed = None then
        (Response 400 (ErrorBody ''No fields to update''), file)
      else
        (case text_is_blank rt text of
           Inl ex \<Rightarrow> failed
         | Inr True \<Rightarrow> (Response 400 (ErrorBody ''Task text cannot be empty''), file)
         | Inr False \<Rightarrow>
             (case readTasks rt file of
                JArr tasks \<Rightarrow>
                  (case findIndex ident tasks 0 of
                     Inl ex \<Rightarrow> failed
                   | Inr None \<Rightarrow> (Response 404 (ErrorBody ''Task not found''), file)
                   | Inr (Some taskIndex) \<Rightarrow>
                       (case tasks ! taskIndex of
                          JObj props \<Rightarrow>
                            (case assign_text rt text props of
                               Inl ex \<Rightarrow> failed
                             | Inr props1 \<Rightarrow>
                                 (let props2 = assign_completed completed props1;
                                      props3 = set_prop ''updatedAt'' (JStr (now rt)) props2
                                  in (Response 200 (JsonBody (JObj props3)),
                                      writeTasks rt (JArr (tasks[taskIndex := JObj props3])))))
                        | other \<Rightarrow> failed))
              | other \<Rightarrow> failed)))"

section \<open>Notions used to state the properties\<close>

text \<open>The rows \<^verbatim>\<open>SELECT * FROM videos WHERE user_id = ?\<close> yields.\<close>

definition owned :: "int \<Rightarrow> state \<Rightarrow> video list" where
  "owned userId s = filter (\<lambda>v. user_id v = userId) (videos s)"

text \<open>
  The paths a handler may hand to the file system on behalf of the videos \<open>vs\<close>:
  those of the rows with \<^verbatim>\<open>video_type\<close> \<^verbatim>\<open>'file'\<close> and a non-empty locator.
\<close>

definition blob_paths :: "env \<Rightarrow> video list \<Rightarrow> string set" where
  "blob_paths e vs =
     (\<lambda>v. path_join e (video_url v)) ` {v \<in> set vs. video_type v = ''file'' \<and> video_url v \<noteq> []}"

text \<open>Among them, the paths on which \<^verbatim>\<open>unlinkSync\<close> does not throw.\<close>

definition removable :: "env \<Rightarrow> video list \<Rightarrow> string set" where
  "removable e vs = {p \<in> blob_paths e vs. \<not> unlink_throws e p}"

text \<open>The file-system calls on a set of paths.\<close>

definition fs_calls :: "string set \<Rightarrow> event set" where
  "fs_calls P = ExistsSync ` P \<union> UnlinkSync ` P"

text \<open>
  The state a rollback leaves when nothing but the transaction's own statements
  touched the tables: the tables as they were when the transaction began.
\<close>

definition restored :: "state \<Rightarrow> state" where
  "restored s = rollback (begin_transaction s)"

section \<open>A small installation\<close>

text \<open>
  Two accounts and three videos, used to run the handlers on concrete input: alice
  owns an uploaded file and a link, bob owns an uploaded file. The server lives in
  \<^verbatim>\<open>/srv/app\<close>, and \<open>path_join\<close> is \<^verbatim>\<open>path.join\<close> on that directory for the
  locators in use (it puts the locator behind the directory and folds the double
  slash of the link). In \<open>app_dir\<close> no statement fails and no \<^verbatim>\<open>unlinkSync\<close> throws.
\<close>

definition alice :: user where
  "alice = \<lparr>u_id = 1, u_name = ''alice'', u_email = ''alice@example.org'',
             u_password = ''hash-a'', u_created_at = ''2024-05-01 10:00:00''\<rparr>"

definition bob :: user where
  "bob = \<lparr>u_id = 2, u_name = ''bob'', u_email = ''bob@example.org'',
           u_password = ''hash-b'', u_created_at = ''2024-05-02 10:00:00''\<rparr>"

definition clip :: video where
  "clip = \<lparr>v_id = 1, v_title = ''clip'', v_description = [],
            video_url = ''/uploads/video-1.mp4'', video_type = ''file'', user_id = 1,
            v_created_at = ''2024-05-03 10:00:00''\<rparr>"

definition talk :: video where
  "talk = \<lparr>v_id = 2, v_title = ''talk'', v_description = [],
            video_url = ''https://example.org/talk'', video_type = ''link'', user_id = 1,
            v_created_at = ''2024-05-04 10:00:00''\<rparr>"

definition reel :: video where
  "reel = \<lparr>v_id = 3, v_title = ''reel'', v_description = [],
            video_url = ''/uploads/video-3.mp4'', video_type = ''file'', user_id = 2,
            v_created_at = ''2024-05-05 10:00:00''\<rparr>"

definition app_dir :: env where
  "app_dir =
     \<lparr>path_join =
        (\<lambda>url. if url = ''https://example.org/talk'' then ''/srv/app/https:/example.org/talk''
              else ''/srv/app'' @ url),
      unlink_throws = (\<lambda>p. False),
      select_err = False, delete_videos_err = False, delete_user_err = False,
      commit_err = False\<rparr>"

definition site :: state where
  "site = \<lparr>users = [alice, bob], videos = [clip, talk, reel], txn = None,
            files = {''/srv/app/uploads/video-1.mp4'', ''/srv/app/uploads/video-3.mp4''}\<rparr>"

text \<open>The same server on a directory where every \<^verbatim>\<open>unlinkSync\<close> throws.\<close>

definition read_only_dir :: env where
  "read_only_dir = app_dir\<lparr>unlink_throws := (\<lambda>p. True)\<rparr>"

text \<open>The same server on a database whose \<^verbatim>\<open>COMMIT\<close> fails.\<close>

definition commit_fails :: env where
  "commit_fails = app_dir\<lparr>commit_err := True\<rparr>"

text \<open>
  Two tasks, and a runtime whose parser knows the one text that holds them and
  rejects every other text; \<open>''<tasks.json, rewritten>''\<close> stands for the text its
  serialiser writes. It trims blanks and its clock stands at noon on the first of
  June.
\<close>

definition buy_milk :: json where
  "buy_milk =
     JObj [(''id'', JStr ''t1''), (''text'', JStr ''buy milk''), (''completed'', JBool False),
           (''createdAt'', JStr ''2024-05-01T08:00:00.000Z''),
           (''updatedAt'', JStr ''2024-05-01T08:00:00.000Z'')]"

definition call_home :: json where
  "call_home =
     JObj [(''id'', JStr ''t2''), (''text'', JStr ''call home''), (''completed'', JBool True),
           (''createdAt'', JStr ''2024-05-02T08:00:00.000Z''),
           (''updatedAt'', JStr ''2024-05-03T08:00:00.000Z'')]"

definition node :: runtime where
  "node =
     \<lparr>json_parse =
        (\<lambda>data. if data = ''<tasks.json>'' then Some (JArr [buy_milk, call_home]) else None),
      json_stringify = (\<lambda>tasks. ''<tasks.json, rewritten>''),
      trim = (\<lambda>t. rev (dropWhile (\<lambda>c. c = CHR '' '') (rev (dropWhile (\<lambda>c. c = CHR '' '') t)))),
      now = ''2024-06-01T12:00:00.000Z''\<rparr>"

section \<open>Lemmas about the handlers\<close>

subsection \<open>The loop over the fetched videos\<close>

lemma blob_paths_Nil: "blob_paths e [] = {}"
  by (simp add: blob_paths_def)

lemma finite_blob_paths: "finite (blob_paths e vs)"
  by (simp add: blob_paths_def)

lemma removable_Nil: "removable e [] = {}"
  by (simp add: removable_def blob_paths_Nil)

lemma finite_removable: "finite (removable e vs)"
  by (simp add: removable_def finite_blob_paths)

lemma removable_single:
  "removable e [v] =
     (if video_type v = ''file'' \<and> video_url v \<noteq> [] \<and> \<not> unlink_throws e (path_join e (video_url v))
      then {path_join e (video_url v)} else {})"
  by (auto simp: removable_def blob_paths_def)

lemma blob_paths_single:
  "blob_paths e [v] =
     (if video_type v = ''file'' \<and> video_url v \<noteq> [] then {path_join e (video_url v)} else {})"
  by (auto simp: blob_paths_def)

lemma remove_file_files: "fst (remove_file e v fs) = fs - removable e [v]"
  by (auto simp: remove_file_def Let_def removable_single)

lemma remove_file_calls: "set (snd (snd (remove_file e v fs))) \<subseteq> fs_calls (blob_paths e [v])"
  by (simp add: remove_file_def Let_def blob_paths_single fs_calls_def)

lemma forEach_step_hit:
  assumes "path_join e (video_url v) \<in> removable e [v]" "path_join e (video_url v) \<in> fs"
  shows "\<exists>c'. forEach_step e v (fs, n, c) = (fs - {path_join e (video_url v)}, Suc n, c')"
proof -
  have "video_type v = ''file'' \<and> video_url v \<noteq> [] \<and> \<not> unlink_throws e (path_join e (video_url v))"
    using assms(1) by (simp add: removable_single split: if_splits)
  then show ?thesis
    using assms(2) by (simp add: forEach_step_def remove_file_def Let_def)
qed

lemma forEach_step_miss:
  assumes "path_join e (video_url v) \<notin> removable e [v] \<or> path_join e (video_url v) \<notin> fs"
  shows "\<exists>c'. forEach_step e v (fs, n, c) = (fs, n, c')"
proof -
  have "\<not> (video_type v = ''file'' \<and> video_url v \<noteq> [] \<and> \<not> unlink_throws e (path_join e (video_url v)))
        \<or> path_join e (video_url v) \<notin> fs"
    using assms by (auto simp: removable_single split: if_splits)
  then show ?thesis
    by (auto simp: forEach_step_def remove_file_def Let_def)
qed

lemma removable_Cons_single: "removable e (v # vs) = removable e [v] \<union> removable e vs"
  by (auto simp: removable_def blob_paths_def)

lemma card_step:
  assumes "finite R" "p \<in> fs"
  shows "card (fs \<inter> insert p R) = Suc (card ((fs - {p}) \<inter> R))"
proof -
  have "fs \<inter> insert p R = insert p ((fs - {p}) \<inter> R)" using assms by auto
  moreover have "p \<notin> (fs - {p}) \<inter> R" by simp
  moreover have "finite ((fs - {p}) \<inter> R)" using assms by simp
  ultimately show ?thesis by simp
qed

lemma fold_forEach:
  "\<exists>c'. fold (forEach_step e) vs (fs, n, c) =
          (fs - removable e vs, n + card (fs \<inter> removable e vs), c')"
proof (induction vs arbitrary: fs n c)
  case Nil
  show ?case by (simp add: removable_Nil)
next
  case (Cons v vs)
  let ?p = "path_join e (video_url v)"
  let ?R = "removable e vs"
  show ?case
  proof (cases "?p \<in> removable e [v] \<and> ?p \<in> fs")
    case True
    then obtain c1 where step: "forEach_step e v (fs, n, c) = (fs - {?p}, Suc n, c1)"
      using forEach_step_hit[of e v fs n c] by blast
    have single: "removable e [v] = {?p}"
      using True by (simp add: removable_single split: if_splits)
    obtain c' where ih: "fold (forEach_step e) vs (fs - {?p}, Suc n, c1) =
        (fs - {?p} - ?R, Suc n + card ((fs - {?p}) \<inter> ?R), c')"
      using Cons.IH by blast
    have files: "fs - {?p} - ?R = fs - removable e (v # vs)"
      unfolding removable_Cons_single[of e v vs] single by blast
    have "card (fs \<inter> insert ?p ?R) = Suc (card ((fs - {?p}) \<inter> ?R))"
      using True by (intro card_step finite_removable) simp
    moreover have "removable e (v # vs) = insert ?p ?R"
      unfolding removable_Cons_single[of e v vs] single by blast
    ultimately have count: "Suc n + card ((fs - {?p}) \<inter> ?R) = n + card (fs \<inter> removable e (v # vs))"
      by (simp only: add_Suc add_Suc_right)
    have "fold (forEach_step e) (v # vs) (fs, n, c) =
            fold (forEach_step e) vs (fs - {?p}, Suc n, c1)"
      by (simp only: fold_Cons comp_apply step)
    also have "\<dots> = (fs - removable e (v # vs), n + card (fs \<inter> removable e (v # vs)), c')"
      by (simp only: ih files count)
    finally show ?thesis by blast
  next
    case False
    then obtain c1 where step: "forEach_step e v (fs, n, c) = (fs, n, c1)"
      using forEach_step_miss[of e v fs n c] by blast
    have inter: "fs \<inter> removable e [v] = {}"
      using False by (auto simp: removable_single split: if_splits)
    obtain c' where ih: "fold (forEach_step e) vs (fs, n, c1) =
        (fs - ?R, n + card (fs \<inter> ?R), c')"
      using Cons.IH by blast
    have files: "fs - ?R = fs - removable e (v # vs)"
      unfolding removable_Cons_single[of e v vs] using inter by blast
    have inter': "fs \<inter> ?R = fs \<inter> removable e (v # vs)"
      unfolding removable_Cons_single[of e v vs] using inter by blast
    have "fold (forEach_step e) (v # vs) (fs, n, c) = fold (forEach_step e) vs (fs, n, c1)"
      by (simp only: fold_Cons comp_apply step)
    also have "\<dots> = (fs - removable e (v # vs), n + card (fs \<inter> removable e (v # vs)), c')"
      by (simp only: ih files inter')
    finally show ?thesis by blast
  qed
qed

lemma remove_files_result:
  "\<exists>c. remove_files e vs fs = (fs - removable e vs, card (fs \<inter> removable e vs), c)"
  using fold_forEach[of e vs fs 0 "[]"] by (simp add: remove_files_def)


lemma blob_paths_Cons_single: "blob_paths e (v # vs) = blob_paths e [v] \<union> blob_paths e vs"
  by (auto simp: blob_paths_def)

lemma fs_calls_Un: "fs_calls (A \<union> B) = fs_calls A \<union> fs_calls B"
  by (auto simp: fs_calls_def)

lemma forEach_step_calls:
  "set (snd (snd (forEach_step e v (fs, n, c)))) \<subseteq> set c \<union> fs_calls (blob_paths e [v])"
proof -
  obtain fs' d evs where rf: "remove_file e v fs = (fs', d, evs)"
    by (cases "remove_file e v fs") auto
  have "set evs \<subseteq> fs_calls (blob_paths e [v])"
    using remove_file_calls[of e v fs] by (simp add: rf)
  moreover have "snd (snd (forEach_step e v (fs, n, c))) = c @ evs"
    by (simp add: forEach_step_def rf)
  ultimately show ?thesis by auto
qed

lemma fold_forEach_calls:
  "set (snd (snd (fold (forEach_step e) vs acc))) \<subseteq> set (snd (snd acc)) \<union> fs_calls (blob_paths e vs)"
proof (induction vs arbitrary: acc)
  case Nil
  show ?case by simp
next
  case (Cons v vs)
  obtain fs n c where acc: "acc = (fs, n, c)" by (cases acc) auto
  let ?A = "set (snd (snd (fold (forEach_step e) vs (forEach_step e v acc))))"
  let ?B = "set (snd (snd (forEach_step e v acc)))"
  have 1: "?A \<subseteq> ?B \<union> fs_calls (blob_paths e vs)"
    by (rule Cons.IH)
  have 2: "?B \<subseteq> set c \<union> fs_calls (blob_paths e [v])"
    unfolding acc by (rule forEach_step_calls)
  have 3: "fs_calls (blob_paths e (v # vs)) = fs_calls (blob_paths e [v]) \<union> fs_calls (blob_paths e vs)"
    by (simp only: blob_paths_Cons_single[of e v vs] fs_calls_Un)
  have "?A \<subseteq> set c \<union> fs_calls (blob_paths e (v # vs))"
    unfolding 3 using 1 2 by blast
  then show ?case
    by (simp only: fold_Cons comp_apply acc snd_conv)
qed

lemma remove_files_calls:
  "set (snd (snd (remove_files e vs fs))) \<subseteq> fs_calls (blob_paths e vs)"
  using fold_forEach_calls[of e vs "(fs, 0, [])"] by (simp add: remove_files_def)

lemma not_fs_call:
  "Begin \<notin> fs_calls P" "Commit \<notin> fs_calls P" "Rollback \<notin> fs_calls P"
  "SelectVideos k \<notin> fs_calls P" "DeleteVideos k \<notin> fs_calls P" "DeleteUser k \<notin> fs_calls P"
  "GetVideo k \<notin> fs_calls P" "DeleteVideoRow k \<notin> fs_calls P"
  by (auto simp: fs_calls_def)

subsection \<open>The transaction and the account handler\<close>

lemma restored_idle: "txn s = None \<Longrightarrow> restored s = s"
  by (simp add: restored_def rollback_def begin_transaction_def)

lemma rollback_in_txn:
  fixes s t :: state
  assumes "txn t = txn (begin_transaction s)"
  shows "rollback t = (restored s)\<lparr>files := files t\<rparr>"
  using assms
  by (cases "txn s") (auto simp: restored_def rollback_def begin_transaction_def)

lemma begin_transaction_tables:
  "videos (begin_transaction s) = videos s" "users (begin_transaction s) = users s"
  "files (begin_transaction s) = files s"
  by (simp_all add: begin_transaction_def split: option.splits)



lemma deleteAccount_unfold:
  fixes e userId s
  defines "fs \<equiv> files s - removable e (owned userId s)"
    and "n \<equiv> card (files s \<inter> removable e (owned userId s))"
    and "fc \<equiv> snd (snd (remove_files e (owned userId s) (files s)))"
  shows "deleteAccount e userId s =
    (if select_err e then
       (Response 500 (ErrorBody ''Failed to delete account''), restored s,
        [Begin, SelectVideos userId, Rollback])
     else if delete_videos_err e then
       (Response 500 (ErrorBody ''Failed to delete account data''), (restored s)\<lparr>files := fs\<rparr>,
        [Begin, SelectVideos userId] @ fc @ [DeleteVideos userId, Rollback])
     else if delete_user_err e then
       (Response 500 (ErrorBody ''Failed to delete account''), (restored s)\<lparr>files := fs\<rparr>,
        [Begin, SelectVideos userId] @ fc @ [DeleteVideos userId, DeleteUser userId, Rollback])
     else if (\<forall>u \<in> set (users s). u_id u \<noteq> userId) then
       (Response 404 (ErrorBody ''User not found''), (restored s)\<lparr>files := fs\<rparr>,
        [Begin, SelectVideos userId] @ fc @ [DeleteVideos userId, DeleteUser userId, Rollback])
     else if commit_err e then
       (Response 500 (ErrorBody ''Failed to complete account deletion''), (restored s)\<lparr>files := fs\<rparr>,
        [Begin, SelectVideos userId] @ fc @ [DeleteVideos userId, DeleteUser userId, Commit, Rollback])
     else
       (Response 200
          (AccountDeleted ''Account and all associated data deleted successfully''
             (length (owned userId s)) n),
        s\<lparr>users := filter (\<lambda>u. u_id u \<noteq> userId) (users s),
          videos := filter (\<lambda>v. user_id v \<noteq> userId) (videos s),
          txn := None, files := fs\<rparr>,
        [Begin, SelectVideos userId] @ fc @ [DeleteVideos userId, DeleteUser userId, Commit]))"
proof -
  obtain c where rf: "remove_files e (owned userId s) (files s) = (fs, n, c)"
    using remove_files_result[of e "owned userId s" "files s"] by (auto simp: fs_def n_def)
  then have c: "c = fc" by (simp add: fc_def)
  have rf': "remove_files e (filter (\<lambda>v. user_id v = userId) (videos s)) (files s) = (fs, n, fc)"
    using rf c by (simp add: owned_def)
  have none: "(filter (\<lambda>u. u_id u = userId) (users s) = []) = (\<forall>u \<in> set (users s). u_id u \<noteq> userId)"
    by (simp add: filter_empty_conv)
  have rb: "\<And>t::state. txn t = txn (begin_transaction s) \<Longrightarrow> rollback t = (restored s)\<lparr>files := files t\<rparr>"
    by (rule rollback_in_txn)
  show ?thesis
  proof (cases "select_err e")
    case True
    then show ?thesis by (simp add: deleteAccount_def Let_def restored_def)
  next
    case sel: False
    show ?thesis
    proof (cases "delete_videos_err e")
      case True
      with sel show ?thesis
        by (simp add: deleteAccount_def Let_def rf' rb begin_transaction_tables)
    next
      case dv: False
      show ?thesis
      proof (cases "delete_user_err e")
        case True
        with sel dv show ?thesis
          by (simp add: deleteAccount_def Let_def rf' rb begin_transaction_tables delete_videos_of_def)
      next
        case du: False
        show ?thesis
        proof (cases "\<forall>u \<in> set (users s). u_id u \<noteq> userId")
          case True
          then have "filter (\<lambda>u. u_id u = userId) (users s) = []"
            by (simp add: filter_empty_conv)
          with sel dv du True show ?thesis
            by (simp add: deleteAccount_def Let_def rf' rb begin_transaction_tables
                delete_videos_of_def delete_user_def)
        next
          case False
          then have ne: "filter (\<lambda>u. u_id u = userId) (users s) \<noteq> []"
            by (simp add: filter_empty_conv)
          show ?thesis
          proof (cases "commit_err e")
            case True
            with sel dv du False ne show ?thesis
              by (simp add: deleteAccount_def Let_def rf' rb begin_transaction_tables
                  delete_videos_of_def delete_user_def)
          next
            case ce: False
            have fin: "\<And>t::state. commit t = \<lparr>users = users t, videos = videos t, txn = None, files = files t\<rparr>"
              by (simp add: commit_def)
            have "s\<lparr>users := filter (\<lambda>u. u_id u \<noteq> userId) (users s),
                    videos := filter (\<lambda>v. user_id v \<noteq> userId) (videos s),
                    txn := None, files := fs\<rparr> =
                  \<lparr>users = filter (\<lambda>u. u_id u \<noteq> userId) (users s),
                   videos = filter (\<lambda>v. user_id v \<noteq> userId) (videos s),
                   txn = None, files = fs\<rparr>"
              by simp
            with sel dv du False ne ce show ?thesis
              by (simp add: deleteAccount_def Let_def rf' begin_transaction_tables fin
                  delete_videos_of_def delete_user_def owned_def)
          qed
        qed
      qed
    qed
  qed
qed

lemma remove_files_calls_owned:
  "set (snd (snd (remove_files e (owned userId s) (files s)))) \<subseteq> fs_calls (blob_paths e (owned userId s))"
  by (rule remove_files_calls)

lemma deleteAccount_status_200:
  "status (fst (deleteAccount e userId s)) = 200 \<longleftrightarrow>
     \<not> select_err e \<and> \<not> delete_videos_err e \<and> \<not> delete_user_err e \<and>
     (\<exists>u \<in> set (users s). u_id u = userId) \<and> \<not> commit_err e"
  by (simp add: deleteAccount_unfold)

lemma deleteAccount_success:
  assumes "\<not> select_err e" "\<not> delete_videos_err e" "\<not> delete_user_err e"
    and "\<exists>u \<in> set (users s). u_id u = userId" and "\<not> commit_err e"
  shows "deleteAccount e userId s =
       (Response 200
          (AccountDeleted ''Account and all associated data deleted successfully''
             (length (owned userId s)) (card (files s \<inter> removable e (owned userId s)))),
        s\<lparr>users := filter (\<lambda>u. u_id u \<noteq> userId) (users s),
          videos := filter (\<lambda>v. user_id v \<noteq> userId) (videos s),
          txn := None, files := files s - removable e (owned userId s)\<rparr>,
        [Begin, SelectVideos userId] @ snd (snd (remove_files e (owned userId s) (files s))) @
        [DeleteVideos userId, DeleteUser userId, Commit])"
  using assms by (simp add: deleteAccount_unfold)

lemma removable_card_le: "card (fs \<inter> removable e vs) \<le> length vs"
proof -
  have "card (fs \<inter> removable e vs) \<le> card (removable e vs)"
    by (intro card_mono finite_removable) simp
  also have "\<dots> \<le> card (blob_paths e vs)"
    by (intro card_mono finite_blob_paths) (auto simp: removable_def)
  also have "\<dots> \<le> card (set vs)"
    unfolding blob_paths_def by (intro order_trans[OF card_image_le] card_mono) auto
  also have "\<dots> \<le> length vs"
    by (rule card_length)
  finally show ?thesis .
qed

lemma deleteAccount_trace:
  assumes "deleteAccount e userId s = (r, s', calls)"
  shows "\<exists>fcalls rest.
           calls = Begin # SelectVideos userId # fcalls @ rest \<and>
           set fcalls \<subseteq> fs_calls (blob_paths e (owned userId s)) \<and>
           set rest \<subseteq> {DeleteVideos userId, DeleteUser userId, Commit, Rollback}"
proof -
  let ?fc = "snd (snd (remove_files e (owned userId s) (files s)))"
  let ?mid = "if select_err e then [] else ?fc"
  have "\<exists>rest. snd (snd (deleteAccount e userId s)) = Begin # SelectVideos userId # ?mid @ rest \<and>
          set rest \<subseteq> {DeleteVideos userId, DeleteUser userId, Commit, Rollback}"
    by (simp add: deleteAccount_unfold)
  then obtain rest where rest: "calls = Begin # SelectVideos userId # ?mid @ rest"
      "set rest \<subseteq> {DeleteVideos userId, DeleteUser userId, Commit, Rollback}"
    using assms by auto
  have "set ?mid \<subseteq> fs_calls (blob_paths e (owned userId s))"
    using remove_files_calls_owned[of e userId s] by simp
  with rest show ?thesis
    by blast
qed

subsection \<open>The video handler\<close>

lemma find_row:
  "find P xs = Some x \<Longrightarrow> x \<in> set xs \<and> P x"
  by (induction xs) (auto split: if_splits)

lemma find_by_key:
  assumes "distinct (map f xs)" "x \<in> set xs"
  shows "find (\<lambda>y. f y = f x) xs = Some x"
  using assms by (induction xs) auto

lemma deleteVideo_unfold:
  "deleteVideo e userId videoId s =
    (if select_err e then
       (Response 500 (ErrorBody ''Failed to delete video''), s, [GetVideo videoId])
     else
       (case find (\<lambda>v. v_id v = videoId) (videos s) of
          None \<Rightarrow> (Response 404 (ErrorBody ''Video not found''), s, [GetVideo videoId])
        | Some video \<Rightarrow>
            if user_id video \<noteq> userId then
              (Response 403 (ErrorBody ''Access denied''), s, [GetVideo videoId])
            else if delete_videos_err e then
              (Response 500 (ErrorBody ''Failed to delete video from database''),
               s\<lparr>files := files s - removable e [video]\<rparr>,
               [GetVideo videoId] @ snd (snd (remove_file e video (files s))) @ [DeleteVideoRow videoId])
            else
              (Response 200 (MessageBody ''Video deleted successfully''),
               s\<lparr>files := files s - removable e [video],
                 videos := filter (\<lambda>v. v_id v \<noteq> videoId) (videos s)\<rparr>,
               [GetVideo videoId] @ snd (snd (remove_file e video (files s))) @ [DeleteVideoRow videoId])))"
proof (cases "find (\<lambda>v. v_id v = videoId) (videos s)")
  case None
  then show ?thesis by (simp add: deleteVideo_def)
next
  case (Some video)
  then have "video \<in> set (videos s) \<and> v_id video = videoId"
    by (rule find_row)
  then have ne: "filter (\<lambda>v. v_id v = videoId) (videos s) \<noteq> []"
    by (auto simp: filter_empty_conv)
  obtain fs d fc where rf: "remove_file e video (files s) = (fs, d, fc)"
    by (cases "remove_file e video (files s)") auto
  have fs: "fs = files s - removable e [video]"
    using remove_file_files[of e video "files s"] by (simp add: rf)
  show ?thesis
    by (simp add: deleteVideo_def Some rf fs ne delete_video_row_def Let_def)
qed

lemma deleteVideo_success:
  assumes "deleteVideo e userId videoId s = (r, s', calls)" and "status r = 200"
  shows "\<exists>video. find (\<lambda>v. v_id v = videoId) (videos s) = Some video \<and>
           user_id video = userId \<and>
           s' = s\<lparr>files := files s - removable e [video],
                  videos := filter (\<lambda>v. v_id v \<noteq> videoId) (videos s)\<rparr>"
proof (cases "find (\<lambda>v. v_id v = videoId) (videos s)")
  case None
  with assms show ?thesis
    by (auto simp: deleteVideo_unfold split: if_splits)
next
  case (Some video)
  with assms show ?thesis
    by (auto simp: deleteVideo_unfold split: if_splits)
qed

subsection \<open>The task list\<close>

lemma map_of_set_prop: "map_of (set_prop k v props) = (map_of props)(k \<mapsto> v)"
  by (induction props) (auto simp: fun_eq_iff)

lemma findIndex_found:
  "findIndex ident tasks i = Inr (Some j) \<Longrightarrow>
     i \<le> j \<and> j - i < length tasks \<and>
     (\<exists>props. tasks ! (j - i) = JObj props \<and> map_of props ''id'' = Some (JStr ident))"
  by (induction ident tasks i rule: findIndex.induct)
    (auto simp: Suc_diff_le split: if_splits)

lemma text_is_blank_False:
  "text_is_blank rt text = Inr False \<longleftrightarrow>
     text = None \<or> (\<exists>str. text = Some (JStr str) \<and> trim rt str \<noteq> [])"
proof (cases "text")
  case None
  then show ?thesis by simp
next
  case (Some t)
  then show ?thesis by (cases t) auto
qed

lemma updateTask_status_200:
  assumes "updateTask rt ident text completed file = (r, file')" and "status r = 200"
  shows "text_is_blank rt text = Inr False \<and> \<not> (text = None \<and> completed = None)"
proof -
  have "text_is_blank rt text = Inl TypeError \<or> text_is_blank rt text = Inr True \<or>
        text_is_blank rt text = Inr False"
    by (cases "text_is_blank rt text") (auto intro: exn.exhaust)
  with assms show ?thesis
    by (auto simp: updateTask_def Let_def split: if_splits)
qed


lemma updateTask_not_200:
  assumes "updateTask rt ident text completed file = (r, file')" and "status r \<noteq> 200"
  shows "file' = file"
  using assms
  by (auto simp: updateTask_def Let_def writeTasks_def
      split: if_splits sum.splits bool.splits json.splits option.splits)

lemma assign_text_defined:
  assumes "text_is_blank rt text = Inr False"
  shows "\<exists>props1. assign_text rt text props = Inr props1"
proof -
  from assms have "text = None \<or> (\<exists>str. text = Some (JStr str) \<and> trim rt str \<noteq> [])"
    by (simp only: text_is_blank_False)
  then show ?thesis by auto
qed

lemma assign_text_other:
  assumes "assign_text rt text props = Inr props1" and "k \<noteq> ''text''"
  shows "map_of props1 k = map_of props k"
proof (cases "text")
  case None
  with assms show ?thesis by simp
next
  case (Some t)
  with assms show ?thesis
    by (cases t) (auto simp: map_of_set_prop)
qed

lemma assign_text_None:
  "assign_text rt None props = Inr props1 \<Longrightarrow> map_of props1 ''text'' = map_of props ''text''"
  by simp

lemma assign_text_Some:
  "assign_text rt (Some (JStr str)) props = Inr props1 \<Longrightarrow>
     map_of props1 ''text'' = Some (JStr (trim rt str))"
  by (auto simp: map_of_set_prop)

lemma assign_completed_other:
  "k \<noteq> ''completed'' \<Longrightarrow> map_of (assign_completed completed props) k = map_of props k"
  by (cases completed) (simp_all add: map_of_set_prop)

lemma assign_completed_Some:
  "map_of (assign_completed (Some c) props) ''completed'' = Some c"
  by (simp add: map_of_set_prop)

lemma updateTask_200:
  assumes "readTasks rt file = JArr tasks" and "findIndex ident tasks 0 = Inr (Some i)"
    and "text_is_blank rt text = Inr False" and "\<not> (text = None \<and> completed = None)"
  shows "\<exists>props props1.
           i < length tasks \<and> tasks ! i = JObj props \<and> assign_text rt text props = Inr props1 \<and>
           updateTask rt ident text completed file =
             (Response 200
                (JsonBody (JObj (set_prop ''updatedAt'' (JStr (now rt))
                   (assign_completed completed props1)))),
              Some (json_stringify rt (JArr (tasks[i := JObj (set_prop ''updatedAt'' (JStr (now rt))
                   (assign_completed completed props1))]))))"
proof -
  obtain props where i: "i < length tasks" and props: "tasks ! i = JObj props"
    using findIndex_found[OF assms(2)] by auto
  obtain props1 where p1: "assign_text rt text props = Inr props1"
    using assign_text_defined[OF assms(3), of props] by blast
  have "updateTask rt ident text completed file =
             (Response 200
                (JsonBody (JObj (set_prop ''updatedAt'' (JStr (now rt))
                   (assign_completed completed props1)))),
              Some (json_stringify rt (JArr (tasks[i := JObj (set_prop ''updatedAt'' (JStr (now rt))
                   (assign_completed completed props1))]))))"
    using assms(4) by (simp add: updateTask_def Let_def assms(1-3) props p1 writeTasks_def)
  with i props p1 show ?thesis by blast
qed

section \<open>Properties of account deletion\<close>

text \<open>
  Claim C1. When the statement \<^verbatim>\<open>DELETE FROM users WHERE id = ?\<close> is reached and
  changes no row (there is no account row for the actor), the handler answers 404
  \<^verbatim>\<open>User not found\<close>, its last call is \<^verbatim>\<open>ROLLBACK\<close>, it never commits, and both
  tables are what they were before the request: no video row of the actor is gone.
  The connection is idle (no transaction open) when the request starts.
\<close>

theorem deleteAccount_absent_account:
  assumes "txn s = None"
    and "\<not> select_err e" and "\<not> delete_videos_err e" and "\<not> delete_user_err e"
    and "\<forall>u \<in> set (users s). u_id u \<noteq> userId"
    and "deleteAccount e userId s = (r, s', calls)"
  shows "r = Response 404 (ErrorBody ''User not found'') \<and>
         users s' = users s \<and> videos s' = videos s \<and> txn s' = None \<and>
         last calls = Rollback \<and> Commit \<notin> set calls"
proof -
  let ?fc = "snd (snd (remove_files e (owned userId s) (files s)))"
  have res: "(r, s', calls) =
      (Response 404 (ErrorBody ''User not found''),
       (restored s)\<lparr>files := files s - removable e (owned userId s)\<rparr>,
       [Begin, SelectVideos userId] @ ?fc @ [DeleteVideos userId, DeleteUser userId, Rollback])"
    using assms(2-6) by (simp add: deleteAccount_unfold)
  have "Commit \<notin> set ?fc"
    using remove_files_calls_owned[of e userId s] not_fs_call(2) by blast
  with res assms(1) show ?thesis
    by (simp add: restored_idle)
qed

text \<open>
  Bob's account row is gone while his video row is still there: the request of
  actor 2 ends in 404 and leaves the three video rows and alice's account.
\<close>

theorem deleteAccount_absent_account_witness:
  "txn (site\<lparr>users := [alice]\<rparr>) = None \<and>
   fst (deleteAccount app_dir 2 (site\<lparr>users := [alice]\<rparr>)) =
     Response 404 (ErrorBody ''User not found'') \<and>
   users (fst (snd (deleteAccount app_dir 2 (site\<lparr>users := [alice]\<rparr>)))) = [alice] \<and>
   videos (fst (snd (deleteAccount app_dir 2 (site\<lparr>users := [alice]\<rparr>)))) = [clip, talk, reel] \<and>
   txn (fst (snd (deleteAccount app_dir 2 (site\<lparr>users := [alice]\<rparr>)))) = None"
proof -
  let ?s = "site\<lparr>users := [alice]\<rparr>"
  obtain r s' calls where run: "deleteAccount app_dir 2 ?s = (r, s', calls)"
    by (cases "deleteAccount app_dir 2 ?s") auto
  have idle: "txn ?s = None"
    by (simp add: site_def)
  have ok: "\<not> select_err app_dir" "\<not> delete_videos_err app_dir" "\<not> delete_user_err app_dir"
    by (simp_all add: app_dir_def)
  have absent: "\<forall>u \<in> set (users ?s). u_id u \<noteq> 2"
    by (simp add: alice_def)
  have rows: "users ?s = [alice]" "videos ?s = [clip, talk, reel]"
    by (simp_all add: site_def)
  from deleteAccount_absent_account[OF idle ok absent run] idle rows show ?thesis
    unfolding run by simp
qed

text \<open>
  Claim C2. A request answered with status 200 carries the two counts:
  \<^verbatim>\<open>videosDeleted\<close> is the number of rows the videos table lost and
  \<^verbatim>\<open>filesDeleted\<close> is the number of files that are gone from the file system.
\<close>

theorem deleteAccount_counts:
  assumes "deleteAccount e userId s = (r, s', calls)" and "status r = 200"
  shows "r = Response 200
           (AccountDeleted ''Account and all associated data deleted successfully''
              (length (videos s) - length (videos s')) (card (files s - files s')))"
proof -
  let ?R = "removable e (owned userId s)"
  have "status (fst (deleteAccount e userId s)) = 200"
    using assms by simp
  then have ok: "\<not> select_err e" "\<not> delete_videos_err e" "\<not> delete_user_err e"
    "\<exists>u \<in> set (users s). u_id u = userId" "\<not> commit_err e"
    unfolding deleteAccount_status_200 by blast+
  note eq = deleteAccount_success[OF ok, unfolded assms(1)]
  have res: "r = Response 200
           (AccountDeleted ''Account and all associated data deleted successfully''
              (length (owned userId s)) (card (files s \<inter> ?R)))"
    and vs: "videos s' = filter (\<lambda>v. user_id v \<noteq> userId) (videos s)"
    and fs: "files s' = files s - ?R"
    using eq by simp_all
  have "length (owned userId s) + length (videos s') = length (videos s)"
    unfolding vs owned_def by (rule sum_length_filter_compl)
  then have 1: "length (owned userId s) = length (videos s) - length (videos s')"
    by simp
  have 2: "files s \<inter> ?R = files s - files s'"
    unfolding fs by blast
  show ?thesis
    unfolding res 1 2 by (rule refl)
qed

text \<open>
  Alice owns an uploaded file that exists and a link: her request removes one file
  and two rows, and says so.
\<close>

theorem deleteAccount_counts_witness:
  "status (fst (deleteAccount app_dir 1 site)) = 200 \<and>
   length (videos site) - length (videos (fst (snd (deleteAccount app_dir 1 site)))) = 2 \<and>
   card (files site - files (fst (snd (deleteAccount app_dir 1 site)))) = 1 \<and>
   fst (deleteAccount app_dir 1 site) =
     Response 200 (AccountDeleted ''Account and all associated data deleted successfully'' 2 1)"
proof -
  obtain r s' calls where run: "deleteAccount app_dir 1 site = (r, s', calls)"
    by (cases "deleteAccount app_dir 1 site") auto
  have "status (fst (deleteAccount app_dir 1 site)) = 200"
    unfolding deleteAccount_status_200 by (simp add: app_dir_def site_def alice_def)
  then have st: "status r = 200"
    by (simp add: run)
  have s': "s' = \<lparr>users = [bob], videos = [reel], txn = None,
                   files = {''/srv/app/uploads/video-3.mp4''}\<rparr>"
    using run
    by (simp add: deleteAccount_def remove_files_def forEach_step_def remove_file_def
        begin_transaction_def commit_def delete_videos_of_def delete_user_def Let_def
        site_def app_dir_def alice_def bob_def clip_def talk_def reel_def)
  have rows: "length (videos site) - length (videos s') = 2"
    by (simp add: s' site_def)
  have blobs: "card (files site - files s') = 1"
    by (simp add: s' site_def)
  from deleteAccount_counts[OF run st] st rows blobs show ?thesis
    unfolding run by simp
qed

text \<open>
  Claim C3. The calls of every request start with \<^verbatim>\<open>BEGIN TRANSACTION\<close> and the
  \<^verbatim>\<open>SELECT\<close>; then come the file-system calls, all of them on paths of uploaded
  files of the actor; only then the two \<^verbatim>\<open>DELETE\<close> statements, \<^verbatim>\<open>COMMIT\<close>
  and \<^verbatim>\<open>ROLLBACK\<close>. When \<^verbatim>\<open>COMMIT\<close> is issued and fails, the handler rolls back
  and answers 500: both tables are what they were before the request (on a
  connection that was idle), and the files that were removed stay removed.
\<close>

theorem deleteAccount_blobs_before_commit:
  assumes "deleteAccount e userId s = (r, s', calls)"
  shows "(\<exists>fcalls rest.
            calls = Begin # SelectVideos userId # fcalls @ rest \<and>
            set fcalls \<subseteq> fs_calls (blob_paths e (owned userId s)) \<and>
            set rest \<subseteq> {DeleteVideos userId, DeleteUser userId, Commit, Rollback}) \<and>
         (txn s = None \<and> Commit \<in> set calls \<and> commit_err e \<longrightarrow>
            r = Response 500 (ErrorBody ''Failed to complete account deletion'') \<and>
            last calls = Rollback \<and>
            users s' = users s \<and> videos s' = videos s \<and> txn s' = None \<and>
            files s' = files s - removable e (owned userId s))"
proof
  show "\<exists>fcalls rest.
            calls = Begin # SelectVideos userId # fcalls @ rest \<and>
            set fcalls \<subseteq> fs_calls (blob_paths e (owned userId s)) \<and>
            set rest \<subseteq> {DeleteVideos userId, DeleteUser userId, Commit, Rollback}"
    using assms by (rule deleteAccount_trace)
next
  let ?fc = "snd (snd (remove_files e (owned userId s) (files s)))"
  have nc: "Commit \<notin> set ?fc"
    using remove_files_calls_owned[of e userId s] not_fs_call(2) by blast
  show "txn s = None \<and> Commit \<in> set calls \<and> commit_err e \<longrightarrow>
            r = Response 500 (ErrorBody ''Failed to complete account deletion'') \<and>
            last calls = Rollback \<and>
            users s' = users s \<and> videos s' = videos s \<and> txn s' = None \<and>
            files s' = files s - removable e (owned userId s)"
  proof
    assume a: "txn s = None \<and> Commit \<in> set calls \<and> commit_err e"
    then have idle: "restored s = s" by (simp add: restored_idle)
    have "(r, s', calls) =
        (Response 500 (ErrorBody ''Failed to complete account deletion''),
         s\<lparr>files := files s - removable e (owned userId s)\<rparr>,
         [Begin, SelectVideos userId] @ ?fc @ [DeleteVideos userId, DeleteUser userId, Commit, Rollback])"
      using a nc assms[symmetric] unfolding deleteAccount_unfold idle
      by (simp split: if_splits)
    with a show "r = Response 500 (ErrorBody ''Failed to complete account deletion'') \<and>
            last calls = Rollback \<and>
            users s' = users s \<and> videos s' = videos s \<and> txn s' = None \<and>
            files s' = files s - removable e (owned userId s)"
      by simp
  qed
qed

text \<open>
  Alice's request on the database whose \<^verbatim>\<open>COMMIT\<close> fails: her file is unlinked
  before the rows are touched, the answer is 500, the tables are untouched and the
  file is gone.
\<close>

theorem deleteAccount_blobs_before_commit_witness:
  "txn site = None \<and> commit_err commit_fails \<and>
   deleteAccount commit_fails 1 site =
     (Response 500 (ErrorBody ''Failed to complete account deletion''),
      site\<lparr>files := {''/srv/app/uploads/video-3.mp4''}\<rparr>,
      [Begin, SelectVideos 1, ExistsSync ''/srv/app/uploads/video-1.mp4'',
       UnlinkSync ''/srv/app/uploads/video-1.mp4'', DeleteVideos 1, DeleteUser 1, Commit, Rollback])"
proof -
  obtain r s' calls where run: "deleteAccount commit_fails 1 site = (r, s', calls)"
    by (cases "deleteAccount commit_fails 1 site") auto
  have calls: "calls = [Begin, SelectVideos 1, ExistsSync ''/srv/app/uploads/video-1.mp4'',
       UnlinkSync ''/srv/app/uploads/video-1.mp4'', DeleteVideos 1, DeleteUser 1, Commit, Rollback]"
    using run
    by (simp add: deleteAccount_def remove_files_def forEach_step_def remove_file_def
        begin_transaction_def rollback_def delete_videos_of_def delete_user_def Let_def
        commit_fails_def site_def app_dir_def alice_def bob_def clip_def talk_def reel_def)
  have files: "files s' = {''/srv/app/uploads/video-3.mp4''}"
    using run
    by (auto simp: deleteAccount_def remove_files_def forEach_step_def remove_file_def
        begin_transaction_def rollback_def delete_videos_of_def delete_user_def Let_def
        commit_fails_def site_def app_dir_def alice_def bob_def clip_def talk_def reel_def)
  have idle: "txn site = None"
    by (simp add: site_def)
  have fails: "commit_err commit_fails"
    by (simp add: commit_fails_def)
  have "Commit \<in> set calls"
    by (simp add: calls)
  with deleteAccount_blobs_before_commit[OF run] idle fails
  have tables: "r = Response 500 (ErrorBody ''Failed to complete account deletion'') \<and>
        users s' = users site \<and> videos s' = videos site \<and> txn s' = None"
    by blast
  with files idle have "s' = site\<lparr>files := {''/srv/app/uploads/video-3.mp4''}\<rparr>"
    by simp
  with tables calls idle fails show ?thesis
    unfolding run by simp
qed

text \<open>
  Claim C6. Deleting a video whose \<^verbatim>\<open>video_type\<close> is not \<^verbatim>\<open>'file'\<close> makes no call
  on the file system and leaves the files alone. Deleting an account calls
  \<^verbatim>\<open>existsSync\<close> and \<^verbatim>\<open>unlinkSync\<close> only on the path of a row of the actor whose
  \<^verbatim>\<open>video_type\<close> is \<^verbatim>\<open>'file'\<close>: no call is made for a link.
\<close>

theorem link_videos_never_unlinked:
  assumes "find (\<lambda>v. v_id v = videoId) (videos s) = Some video"
    and "video_type video \<noteq> ''file''"
    and "deleteVideo e userId videoId s = (r, s', calls)"
    and "deleteAccount e actor s = (r2, s2, calls2)"
  shows "(\<forall>p. ExistsSync p \<notin> set calls \<and> UnlinkSync p \<notin> set calls) \<and> files s' = files s \<and>
         (\<forall>p. ExistsSync p \<in> set calls2 \<or> UnlinkSync p \<in> set calls2 \<longrightarrow>
              (\<exists>v \<in> set (videos s). user_id v = actor \<and> video_type v = ''file'' \<and>
                   video_url v \<noteq> [] \<and> p = path_join e (video_url v)))"
proof -
  have none: "remove_file e video (files s) = (files s, False, [])"
    using assms(2) by (simp add: remove_file_def)
  have rem: "removable e [video] = {}"
    using assms(2) by (simp add: removable_single)
  have "calls = [GetVideo videoId] \<or> calls = [GetVideo videoId, DeleteVideoRow videoId]"
    and 1: "files s' = files s"
    using assms(3) by (auto simp: deleteVideo_unfold assms(1) none rem split: if_splits)
  then have 2: "\<forall>p. ExistsSync p \<notin> set calls \<and> UnlinkSync p \<notin> set calls"
    by auto
  obtain fcalls rest where c2: "calls2 = Begin # SelectVideos actor # fcalls @ rest"
    "set fcalls \<subseteq> fs_calls (blob_paths e (owned actor s))"
    "set rest \<subseteq> {DeleteVideos actor, DeleteUser actor, Commit, Rollback}"
    using deleteAccount_trace[OF assms(4)] by blast
  have 3: "\<exists>v \<in> set (videos s). user_id v = actor \<and> video_type v = ''file'' \<and>
                   video_url v \<noteq> [] \<and> p = path_join e (video_url v)"
    if "ExistsSync p \<in> set calls2 \<or> UnlinkSync p \<in> set calls2" for p
  proof -
    from that c2(1,3) have "ExistsSync p \<in> set fcalls \<or> UnlinkSync p \<in> set fcalls"
      by auto
    with c2(2) have "p \<in> blob_paths e (owned actor s)"
      by (auto simp: fs_calls_def)
    then show ?thesis
      by (auto simp: blob_paths_def owned_def)
  qed
  from 1 2 3 show ?thesis by blast
qed

text \<open>
  Alice's link: deleting it leaves the files as they are, and neither handler
  calls \<^verbatim>\<open>unlinkSync\<close> on the path its locator would give.
\<close>

theorem link_videos_never_unlinked_witness:
  "find (\<lambda>v. v_id v = 2) (videos site) = Some talk \<and> video_type talk = ''link'' \<and>
   files (fst (snd (deleteVideo app_dir 1 2 site))) = files site \<and>
   UnlinkSync (path_join app_dir (video_url talk)) \<notin> set (snd (snd (deleteVideo app_dir 1 2 site))) \<and>
   UnlinkSync (path_join app_dir (video_url talk)) \<notin> set (snd (snd (deleteAccount app_dir 1 site)))"
proof -
  obtain r s' calls where run: "deleteVideo app_dir 1 2 site = (r, s', calls)"
    by (cases "deleteVideo app_dir 1 2 site") auto
  obtain r2 s2 calls2 where run2: "deleteAccount app_dir 1 site = (r2, s2, calls2)"
    by (cases "deleteAccount app_dir 1 site") auto
  have found: "find (\<lambda>v. v_id v = 2) (videos site) = Some talk"
    by (simp add: site_def clip_def talk_def)
  have link: "video_type talk = ''link''" "video_type talk \<noteq> ''file''"
    by (simp_all add: talk_def)
  note inst = link_videos_never_unlinked[OF found link(2) run run2]
  have no_owner: "\<not> (\<exists>v \<in> set (videos site). user_id v = 1 \<and> video_type v = ''file'' \<and>
      video_url v \<noteq> [] \<and> path_join app_dir (video_url talk) = path_join app_dir (video_url v))"
    by (simp add: site_def app_dir_def clip_def talk_def reel_def)
  from inst have "UnlinkSync (path_join app_dir (video_url talk)) \<notin> set calls"
    and "files s' = files site"
    by blast+
  moreover from inst no_owner have "UnlinkSync (path_join app_dir (video_url talk)) \<notin> set calls2"
    by blast
  ultimately show ?thesis
    using found link(1) unfolding run run2 by simp
qed

text \<open>
  Claim C7. The answer's status depends neither on which files exist nor on whether
  \<^verbatim>\<open>unlinkSync\<close> throws, and \<^verbatim>\<open>filesDeleted\<close> never exceeds \<^verbatim>\<open>videosDeleted\<close>.
  When no statement fails and the account owns exactly one video, an uploaded file
  that is not on disk, the answer is 200 with \<^verbatim>\<open>videosDeleted: 1\<close> and
  \<^verbatim>\<open>filesDeleted: 0\<close>.
\<close>

theorem deleteAccount_missing_blob:
  assumes "deleteAccount e userId s = (r, s', calls)"
  shows "(\<forall>F t. status (fst (deleteAccount (e\<lparr>unlink_throws := t\<rparr>) userId (s\<lparr>files := F\<rparr>))) = status r) \<and>
         (\<forall>m nv nf. r = Response 200 (AccountDeleted m nv nf) \<longrightarrow> nf \<le> nv) \<and>
         (\<not> select_err e \<and> \<not> delete_videos_err e \<and> \<not> delete_user_err e \<and> \<not> commit_err e \<and>
          (\<exists>u \<in> set (users s). u_id u = userId) \<and>
          owned userId s = [video] \<and> video_type video = ''file'' \<and>
          path_join e (video_url video) \<notin> files s \<longrightarrow>
            r = Response 200
                  (AccountDeleted ''Account and all associated data deleted successfully'' 1 0) \<and>
            files s' = files s)"
proof (intro conjI allI impI)
  fix F t
  have "status (fst (deleteAccount (e\<lparr>unlink_throws := t\<rparr>) userId (s\<lparr>files := F\<rparr>))) =
        status (fst (deleteAccount e userId s))"
    by (simp add: deleteAccount_unfold)
  then show "status (fst (deleteAccount (e\<lparr>unlink_throws := t\<rparr>) userId (s\<lparr>files := F\<rparr>))) = status r"
    by (simp add: assms)
next
  fix m nv nf
  assume "r = Response 200 (AccountDeleted m nv nf)"
  then have "nv = length (owned userId s) \<and> nf = card (files s \<inter> removable e (owned userId s))"
    using assms by (simp add: deleteAccount_unfold split: if_splits)
  then show "nf \<le> nv"
    by (simp add: removable_card_le)
next
  assume a: "\<not> select_err e \<and> \<not> delete_videos_err e \<and> \<not> delete_user_err e \<and> \<not> commit_err e \<and>
          (\<exists>u \<in> set (users s). u_id u = userId) \<and>
          owned userId s = [video] \<and> video_type video = ''file'' \<and>
          path_join e (video_url video) \<notin> files s"
  then have "files s \<inter> removable e (owned userId s) = {}"
    by (simp add: removable_single)
  moreover from this have "files s - removable e (owned userId s) = files s"
    by blast
  moreover note deleteAccount_success[of e s userId, unfolded assms]
  ultimately have "(r, s', calls) =
       (Response 200 (AccountDeleted ''Account and all associated data deleted successfully'' 1 0),
        s\<lparr>users := filter (\<lambda>u. u_id u \<noteq> userId) (users s),
          videos := filter (\<lambda>v. user_id v \<noteq> userId) (videos s),
          txn := None, files := files s\<rparr>,
        [Begin, SelectVideos userId] @ snd (snd (remove_files e (owned userId s) (files s))) @
        [DeleteVideos userId, DeleteUser userId, Commit])"
    using a by simp
  then show "r = Response 200
                  (AccountDeleted ''Account and all associated data deleted successfully'' 1 0)"
    and "files s' = files s"
    by simp_all
qed

text \<open>
  Alice owns one uploaded file and it is not on disk: her request succeeds with the
  counts 1 and 0.
\<close>

theorem deleteAccount_missing_blob_witness:
  "owned 1 (site\<lparr>videos := [clip, reel], files := {''/srv/app/uploads/video-3.mp4''}\<rparr>) = [clip] \<and>
   video_type clip = ''file'' \<and>
   path_join app_dir (video_url clip) \<notin>
     files (site\<lparr>videos := [clip, reel], files := {''/srv/app/uploads/video-3.mp4''}\<rparr>) \<and>
   fst (deleteAccount app_dir 1
          (site\<lparr>videos := [clip, reel], files := {''/srv/app/uploads/video-3.mp4''}\<rparr>)) =
     Response 200 (AccountDeleted ''Account and all associated data deleted successfully'' 1 0)"
proof -
  let ?s = "site\<lparr>videos := [clip, reel], files := {''/srv/app/uploads/video-3.mp4''}\<rparr>"
  obtain r s' calls where run: "deleteAccount app_dir 1 ?s = (r, s', calls)"
    by (cases "deleteAccount app_dir 1 ?s") auto
  have own: "owned 1 ?s = [clip]"
    by (simp add: owned_def clip_def reel_def)
  have kind: "video_type clip = ''file''"
    by (simp add: clip_def)
  have missing: "path_join app_dir (video_url clip) \<notin> files ?s"
    by (simp add: app_dir_def clip_def)
  have ok: "\<not> select_err app_dir \<and> \<not> delete_videos_err app_dir \<and> \<not> delete_user_err app_dir \<and>
            \<not> commit_err app_dir \<and> (\<exists>u \<in> set (users ?s). u_id u = 1)"
    by (simp add: app_dir_def site_def alice_def)
  from deleteAccount_missing_blob[OF run, of clip] ok own kind missing
  have "r = Response 200 (AccountDeleted ''Account and all associated data deleted successfully'' 1 0)"
    by blast
  with own kind missing show ?thesis
    unfolding run by simp
qed

section \<open>Properties of video deletion\<close>

text \<open>
  Claim C5. Video ids are unique (\<^verbatim>\<open>INTEGER PRIMARY KEY\<close>). When the \<^verbatim>\<open>SELECT\<close>
  succeeds and the row belongs to somebody else, the handler answers 403
  \<^verbatim>\<open>Access denied\<close> after that one call: tables, files and transaction state are
  what they were.
\<close>

theorem deleteVideo_not_owner:
  assumes "distinct (map v_id (videos s))" and "video \<in> set (videos s)"
    and "user_id video \<noteq> userId" and "\<not> select_err e"
    and "deleteVideo e userId (v_id video) s = (r, s', calls)"
  shows "r = Response 403 (ErrorBody ''Access denied'') \<and> s' = s \<and>
         calls = [GetVideo (v_id video)]"
proof -
  have "find (\<lambda>v. v_id v = v_id video) (videos s) = Some video"
    using assms(1,2) by (rule find_by_key)
  then show ?thesis
    using assms(3-5) by (simp add: deleteVideo_unfold)
qed

text \<open>Bob asks for alice's uploaded file to be deleted.\<close>

theorem deleteVideo_not_owner_witness:
  "distinct (map v_id (videos site)) \<and> clip \<in> set (videos site) \<and> user_id clip \<noteq> 2 \<and>
   \<not> select_err app_dir \<and>
   deleteVideo app_dir 2 (v_id clip) site =
     (Response 403 (ErrorBody ''Access denied''), site, [GetVideo (v_id clip)])"
proof -
  obtain r s' calls where run: "deleteVideo app_dir 2 (v_id clip) site = (r, s', calls)"
    by (cases "deleteVideo app_dir 2 (v_id clip) site") auto
  have keys: "distinct (map v_id (videos site))"
    by (simp add: site_def clip_def talk_def reel_def)
  have row: "clip \<in> set (videos site)"
    by (simp add: site_def)
  have other: "user_id clip \<noteq> 2"
    by (simp add: clip_def)
  have sel: "\<not> select_err app_dir"
    by (simp add: app_dir_def)
  from deleteVideo_not_owner[OF keys row other sel run] keys row other sel show ?thesis
    unfolding run by simp
qed

text \<open>
  Claim C8. After a request that was answered with 200, a second request for the
  same video id whose \<^verbatim>\<open>SELECT\<close> succeeds is answered with 404
  \<^verbatim>\<open>Video not found\<close> and leaves the state of the first request as it is.
\<close>

theorem deleteVideo_twice:
  assumes "deleteVideo e userId videoId s = (r1, s1, calls1)" and "status r1 = 200"
    and "\<not> select_err e'"
    and "deleteVideo e' userId videoId s1 = (r2, s2, calls2)"
  shows "r2 = Response 404 (ErrorBody ''Video not found'') \<and> s2 = s1 \<and>
         calls2 = [GetVideo videoId]"
proof -
  have "videos s1 = filter (\<lambda>v. v_id v \<noteq> videoId) (videos s)"
    using deleteVideo_success[OF assms(1,2)] by auto
  then have "find (\<lambda>v. v_id v = videoId) (videos s1) = None"
    by (simp add: find_None_iff)
  then show ?thesis
    using assms(3,4) by (simp add: deleteVideo_unfold)
qed

text \<open>Alice deletes her uploaded file, and asks again.\<close>

theorem deleteVideo_twice_witness:
  "status (fst (deleteVideo app_dir 1 1 site)) = 200 \<and> \<not> select_err app_dir \<and>
   deleteVideo app_dir 1 1 (fst (snd (deleteVideo app_dir 1 1 site))) =
     (Response 404 (ErrorBody ''Video not found''), fst (snd (deleteVideo app_dir 1 1 site)),
      [GetVideo 1])"
proof -
  obtain r1 s1 calls1 where first: "deleteVideo app_dir 1 1 site = (r1, s1, calls1)"
    by (cases "deleteVideo app_dir 1 1 site") auto
  obtain r2 s2 calls2 where second: "deleteVideo app_dir 1 1 s1 = (r2, s2, calls2)"
    by (cases "deleteVideo app_dir 1 1 s1") auto
  have ok: "status r1 = 200"
    using first
    by (auto simp: deleteVideo_def remove_file_def delete_video_row_def Let_def
        site_def app_dir_def clip_def talk_def reel_def)
  have sel: "\<not> select_err app_dir"
    by (simp add: app_dir_def)
  from deleteVideo_twice[OF first ok sel second] ok sel show ?thesis
    unfolding first by (simp add: second)
qed

text \<open>
  Claim C4, as the handler has it. Video ids are unique. When the owner's request
  for an uploaded file with a non-empty locator is answered with 200, no row with
  that id is left, and the file at the locator's path is gone unless
  \<^verbatim>\<open>unlinkSync\<close> threw on it; in that case the exception is logged and swallowed,
  and the files are what they were while the row is deleted all the same.
\<close>

theorem deleteVideo_owner_file:
  assumes "distinct (map v_id (videos s))" and "video \<in> set (videos s)"
    and "user_id video = userId" and "video_type video = ''file''" and "video_url video \<noteq> []"
    and "deleteVideo e userId (v_id video) s = (r, s', calls)" and "status r = 200"
  shows "(\<forall>v \<in> set (videos s'). v_id v \<noteq> v_id video) \<and>
         (\<not> unlink_throws e (path_join e (video_url video)) \<longrightarrow>
            path_join e (video_url video) \<notin> files s') \<and>
         (unlink_throws e (path_join e (video_url video)) \<longrightarrow> files s' = files s)"
proof -
  have found: "find (\<lambda>v. v_id v = v_id video) (videos s) = Some video"
    using assms(1,2) by (rule find_by_key)
  have s': "s' = s\<lparr>files := files s - removable e [video],
                 videos := filter (\<lambda>v. v_id v \<noteq> v_id video) (videos s)\<rparr>"
    using deleteVideo_success[OF assms(6,7)] found by auto
  show ?thesis
    using assms(4,5) by (simp add: s' removable_single)
qed

text \<open>Alice deletes her uploaded file: the row and the file are gone.\<close>

theorem deleteVideo_owner_file_witness:
  "distinct (map v_id (videos site)) \<and> clip \<in> set (videos site) \<and> user_id clip = 1 \<and>
   video_type clip = ''file'' \<and> path_join app_dir (video_url clip) \<in> files site \<and>
   status (fst (deleteVideo app_dir 1 (v_id clip) site)) = 200 \<and>
   clip \<notin> set (videos (fst (snd (deleteVideo app_dir 1 (v_id clip) site)))) \<and>
   path_join app_dir (video_url clip) \<notin> files (fst (snd (deleteVideo app_dir 1 (v_id clip) site)))"
proof -
  obtain r s' calls where run: "deleteVideo app_dir 1 (v_id clip) site = (r, s', calls)"
    by (cases "deleteVideo app_dir 1 (v_id clip) site") auto
  have keys: "distinct (map v_id (videos site))"
    by (simp add: site_def clip_def talk_def reel_def)
  have row: "clip \<in> set (videos site)"
    by (simp add: site_def)
  have own: "user_id clip = 1" and kind: "video_type clip = ''file''" and url: "video_url clip \<noteq> []"
    by (simp_all add: clip_def)
  have there: "path_join app_dir (video_url clip) \<in> files site"
    by (simp add: app_dir_def clip_def site_def)
  have ok: "status r = 200"
    using run
    by (auto simp: deleteVideo_def remove_file_def delete_video_row_def Let_def
        site_def app_dir_def clip_def talk_def reel_def)
  have works: "\<not> unlink_throws app_dir (path_join app_dir (video_url clip))"
    by (simp add: app_dir_def)
  from deleteVideo_owner_file[OF keys row own kind url run ok] works
  have "clip \<notin> set (videos s')" and "path_join app_dir (video_url clip) \<notin> files s'"
    by blast+
  with keys row own kind there ok show ?thesis
    unfolding run by simp
qed

text \<open>
  Claim C4, as it was stated, fails where \<^verbatim>\<open>unlinkSync\<close> throws: alice's request
  for her uploaded file is answered with 200 and the row is gone, but the file that
  was on disk before the request is on disk after it.
\<close>

theorem deleteVideo_blob_survives:
  "clip \<in> set (videos site) \<and> user_id clip = 1 \<and> video_type clip = ''file'' \<and>
   path_join read_only_dir (video_url clip) \<in> files site \<and>
   status (fst (deleteVideo read_only_dir 1 (v_id clip) site)) = 200 \<and>
   clip \<notin> set (videos (fst (snd (deleteVideo read_only_dir 1 (v_id clip) site)))) \<and>
   path_join read_only_dir (video_url clip) \<in>
     files (fst (snd (deleteVideo read_only_dir 1 (v_id clip) site)))"
  by (simp add: deleteVideo_def remove_file_def delete_video_row_def Let_def
      read_only_dir_def app_dir_def site_def clip_def talk_def reel_def)

section \<open>Properties of the task list\<close>

text \<open>
  Claim C9. When the tasks file cannot be read, or its text does not parse,
  \<^verbatim>\<open>readTasks\<close> yields the empty array and \<^verbatim>\<open>getTasks\<close> answers 200 with it.
\<close>

theorem getTasks_missing_or_corrupt:
  assumes "file = None \<or> (\<exists>data. file = Some data \<and> json_parse rt data = None)"
  shows "readTasks rt file = JArr [] \<and> getTasks rt file = Response 200 (JsonBody (JArr []))"
  using assms by (auto simp: readTasks_def getTasks_def)

text \<open>A file whose text is cut off.\<close>

theorem getTasks_missing_or_corrupt_witness:
  "json_parse node ''[{'' = None \<and> readTasks node (Some ''[{'') = JArr [] \<and>
   getTasks node (Some ''[{'') = Response 200 (JsonBody (JArr []))"
proof -
  have corrupt: "json_parse node ''[{'' = None"
    by (simp add: node_def)
  then have "Some ''[{'' = None \<or> (\<exists>data. Some ''[{'' = Some data \<and> json_parse node data = None)"
    by simp
  from getTasks_missing_or_corrupt[OF this] corrupt show ?thesis
    by simp
qed

text \<open>
  Claim C10. Let the file hold an array in which \<^verbatim>\<open>findIndex\<close> finds the id at
  position \<open>i\<close>. With neither \<^verbatim>\<open>text\<close> nor \<^verbatim>\<open>completed\<close> in the body the answer
  is 400 and the file is untouched; every answer other than 200 leaves the file
  untouched; the answer is 200 exactly when a field is supplied and \<^verbatim>\<open>text\<close>, if
  supplied, is a string that is not blank. Then the file is rewritten with the
  same array but for position \<open>i\<close>, and the object there keeps every property,
  \<^verbatim>\<open>id\<close> and \<^verbatim>\<open>createdAt\<close> among them, except that \<^verbatim>\<open>text\<close> is the trimmed text
  if one was supplied, \<^verbatim>\<open>completed\<close> is the supplied value if one was supplied, and
  \<^verbatim>\<open>updatedAt\<close> is the time of the request.
\<close>

theorem updateTask_frame:
  assumes "readTasks rt file = JArr tasks" and "findIndex ident tasks 0 = Inr (Some i)"
    and "updateTask rt ident text completed file = (r, file')"
  shows "(text = None \<and> completed = None \<longrightarrow>
            r = Response 400 (ErrorBody ''No fields to update'') \<and> file' = file) \<and>
         (status r \<noteq> 200 \<longrightarrow> file' = file) \<and>
         (status r = 200 \<longleftrightarrow>
            \<not> (text = None \<and> completed = None) \<and>
            (text = None \<or> (\<exists>str. text = Some (JStr str) \<and> trim rt str \<noteq> []))) \<and>
         (status r = 200 \<longrightarrow>
            (\<exists>props props'.
               i < length tasks \<and> tasks ! i = JObj props \<and>
               r = Response 200 (JsonBody (JObj props')) \<and>
               file' = Some (json_stringify rt (JArr (tasks[i := JObj props']))) \<and>
               (\<forall>j. j \<noteq> i \<longrightarrow> tasks[i := JObj props'] ! j = tasks ! j) \<and>
               map_of props' ''id'' = map_of props ''id'' \<and>
               map_of props' ''createdAt'' = map_of props ''createdAt'' \<and>
               (\<forall>k. k \<notin> {''text'', ''completed'', ''updatedAt''} \<longrightarrow>
                    map_of props' k = map_of props k) \<and>
               (text = None \<longrightarrow> map_of props' ''text'' = map_of props ''text'') \<and>
               (\<forall>str. text = Some (JStr str) \<longrightarrow>
                    map_of props' ''text'' = Some (JStr (trim rt str))) \<and>
               (completed = None \<longrightarrow> map_of props' ''completed'' = map_of props ''completed'') \<and>
               (\<forall>c. completed = Some c \<longrightarrow> map_of props' ''completed'' = Some c) \<and>
               map_of props' ''updatedAt'' = Some (JStr (now rt))))"
    (is "?none \<and> ?failure \<and> (?st \<longleftrightarrow> ?ok) \<and> (?st \<longrightarrow> ?frame)")
proof -
  have none: ?none
    using assms(3) by (auto simp: updateTask_def Let_def)
  have failure: ?failure
    using updateTask_not_200[OF assms(3)] by blast
  have blank_iff: "text_is_blank rt text = Inr False \<and> \<not> (text = None \<and> completed = None) \<longleftrightarrow> ?ok"
    unfolding text_is_blank_False by blast
  have st: "?st \<longleftrightarrow> ?ok"
  proof
    assume ?st
    from updateTask_status_200[OF assms(3) this] show ?ok
      unfolding blank_iff .
  next
    assume ?ok
    then have blank: "text_is_blank rt text = Inr False" and some: "\<not> (text = None \<and> completed = None)"
      unfolding blank_iff[symmetric] by simp_all
    from updateTask_200[OF assms(1,2) blank some] assms(3) show ?st
      by auto
  qed
  have frame: ?frame if ?st
  proof -
    from updateTask_status_200[OF assms(3) that]
    have blank: "text_is_blank rt text = Inr False" and some: "\<not> (text = None \<and> completed = None)"
      by simp_all
    obtain props props1 where i: "i < length tasks" and props: "tasks ! i = JObj props"
      and p1: "assign_text rt text props = Inr props1"
      and run: "updateTask rt ident text completed file =
             (Response 200
                (JsonBody (JObj (set_prop ''updatedAt'' (JStr (now rt))
                   (assign_completed completed props1)))),
              Some (json_stringify rt (JArr (tasks[i := JObj (set_prop ''updatedAt'' (JStr (now rt))
                   (assign_completed completed props1))]))))"
      using updateTask_200[OF assms(1,2) blank some] by blast
    define p2 where "p2 = assign_completed completed props1"
    define p3 where "p3 = set_prop ''updatedAt'' (JStr (now rt)) p2"
    have t1: "\<And>k. k \<noteq> ''text'' \<Longrightarrow> map_of props1 k = map_of props k"
      using p1 by (rule assign_text_other)
    have t2: "map_of props1 ''text'' = map_of props ''text''" if "text = None"
      using p1 unfolding that by (rule assign_text_None)
    have t3: "map_of props1 ''text'' = Some (JStr (trim rt str))" if "text = Some (JStr str)" for str
      using p1 unfolding that by (rule assign_text_Some)
    have c1: "\<And>k. k \<noteq> ''completed'' \<Longrightarrow> map_of p2 k = map_of props1 k"
      unfolding p2_def by (rule assign_completed_other)
    have c2: "completed = None \<Longrightarrow> map_of p2 ''completed'' = map_of props1 ''completed''"
      unfolding p2_def by simp
    have c3: "map_of p2 ''completed'' = Some c" if "completed = Some c" for c
      unfolding p2_def that by (rule assign_completed_Some)
    have u1: "\<And>k. k \<noteq> ''updatedAt'' \<Longrightarrow> map_of p3 k = map_of p2 k"
      and u2: "map_of p3 ''updatedAt'' = Some (JStr (now rt))"
      unfolding p3_def by (simp_all add: map_of_set_prop)
    have r: "r = Response 200 (JsonBody (JObj p3))"
      and f: "file' = Some (json_stringify rt (JArr (tasks[i := JObj p3])))"
      using run assms(3) unfolding p3_def p2_def by simp_all
    have a1: "\<forall>j. j \<noteq> i \<longrightarrow> tasks[i := JObj p3] ! j = tasks ! j"
      by simp
    have a2: "map_of p3 ''id'' = map_of props ''id''"
      by (simp add: u1 c1 t1)
    have a3: "map_of p3 ''createdAt'' = map_of props ''createdAt''"
      by (simp add: u1 c1 t1)
    have a4: "\<forall>k. k \<notin> {''text'', ''completed'', ''updatedAt''} \<longrightarrow> map_of p3 k = map_of props k"
      by (simp add: u1 c1 t1)
    have a5: "text = None \<longrightarrow> map_of p3 ''text'' = map_of props ''text''"
      by (simp add: u1 c1 t2)
    have a6: "\<forall>str. text = Some (JStr str) \<longrightarrow> map_of p3 ''text'' = Some (JStr (trim rt str))"
      by (simp add: u1 c1 t3)
    have a7: "completed = None \<longrightarrow> map_of p3 ''completed'' = map_of props ''completed''"
      by (simp add: u1 c2 t1)
    have a8: "\<forall>c. completed = Some c \<longrightarrow> map_of p3 ''completed'' = Some c"
      by (simp add: u1 c3)
    show ?frame
      apply (rule exI[of _ props])
      apply (rule exI[of _ p3])
      apply (intro conjI)
      apply (fact i props r f a1 a2 a3 a4 a5 a6 a7 a8 u2)+
      done
  qed
  then have "?st \<longrightarrow> ?frame" ..
  with none failure st show ?thesis
    by (intro conjI)
qed

text \<open>The second task gets a new text, with blanks around it.\<close>

theorem updateTask_frame_witness:
  "readTasks node (Some ''<tasks.json>'') = JArr [buy_milk, call_home] \<and>
   findIndex ''t2'' [buy_milk, call_home] 0 = Inr (Some 1) \<and>
   status (fst (updateTask node ''t2'' (Some (JStr ''  call home today '')) None
                  (Some ''<tasks.json>''))) = 200 \<and>
   updateTask node ''t2'' (Some (JStr ''  call home today '')) None (Some ''<tasks.json>'') =
     (Response 200
        (JsonBody
           (JObj [(''id'', JStr ''t2''), (''text'', JStr ''call home today''),
                  (''completed'', JBool True),
                  (''createdAt'', JStr ''2024-05-02T08:00:00.000Z''),
                  (''updatedAt'', JStr ''2024-06-01T12:00:00.000Z'')])),
      Some ''<tasks.json, rewritten>'')"
proof -
  let ?body = "Some (JStr ''  call home today '')"
  obtain r file' where run: "updateTask node ''t2'' ?body None (Some ''<tasks.json>'') = (r, file')"
    by (cases "updateTask node ''t2'' ?body None (Some ''<tasks.json>'')") auto
  have tasks: "readTasks node (Some ''<tasks.json>'') = JArr [buy_milk, call_home]"
    by (simp add: readTasks_def node_def)
  have found: "findIndex ''t2'' [buy_milk, call_home] 0 = Inr (Some 1)"
    by (simp add: buy_milk_def call_home_def)
  have "trim node ''  call home today '' \<noteq> []"
    by (simp add: node_def)
  with updateTask_frame[OF tasks found run] have ok: "status r = 200"
    by blast
  have result: "(r, file') =
     (Response 200
        (JsonBody
           (JObj [(''id'', JStr ''t2''), (''text'', JStr ''call home today''),
                  (''completed'', JBool True),
                  (''createdAt'', JStr ''2024-05-02T08:00:00.000Z''),
                  (''updatedAt'', JStr ''2024-06-01T12:00:00.000Z'')])),
      Some ''<tasks.json, rewritten>'')"
    unfolding run[symmetric]
    by (simp add: updateTask_def readTasks_def writeTasks_def Let_def node_def
        buy_milk_def call_home_def)
  from tasks found ok result show ?thesis
    unfolding run by simp
qed

end
